theory Spec2Isabelle
  imports
    Complex_Main
    "HOL-Library.AList"
    "HOL-Library.Char_ord"
    "HOL-Library.List_Lexorder"
begin

chapter \<open>MailMind: conversation memory store and thread decision logic\<close>

text \<open>
  A shallow embedding of \<^verbatim>\<open>memory/conversation_store.py\<close>,
  \<^verbatim>\<open>memory/memory_integration.py\<close> and the thread decision functions of
  \<^verbatim>\<open>gmail_agent.py\<close>.

  Conventions of the embedding.
  \<^item> Python \<^verbatim>\<open>str\<close> is \<^typ>\<open>string\<close>. Case mapping and whitespace are the ASCII ones;
    lengths count characters of the list.
  \<^item> A Python \<^verbatim>\<open>dict\<close> is an association list kept in insertion order:
    \<^const>\<open>map_of\<close> looks a key up and \<^const>\<open>AList.update\<close> overwrites a key in place or
    appends a new one at the end, as assignment to a dict entry does.
  \<^item> \<^verbatim>\<open>time.time()\<close> is an input: every store operation receives the clock reading
    \<open>now\<close> of the call, used for all readings made inside that call.
  \<^item> Python floats (time stamps, strengths) are exact rationals; rounding is not modelled.
  \<^item> A raised exception is a value \<open>Inl e\<close>; an operation that can raise returns the
    result together with the store as the call leaves it.
\<close>

section \<open>Strings\<close>

definition lower_char :: "char \<Rightarrow> char" where
  "lower_char c =
     (case map_of (zip ''ABCDEFGHIJKLMNOPQRSTUVWXYZ'' ''abcdefghijklmnopqrstuvwxyz'') c of
        Some d \<Rightarrow> d
      | None \<Rightarrow> c)"

definition upper_char :: "char \<Rightarrow> char" where
  "upper_char c =
     (case map_of (zip ''abcdefghijklmnopqrstuvwxyz'' ''ABCDEFGHIJKLMNOPQRSTUVWXYZ'') c of
        Some d \<Rightarrow> d
      | None \<Rightarrow> c)"

text \<open>\<^verbatim>\<open>s.lower()\<close>\<close>

definition lower :: "string \<Rightarrow> string" where
  "lower s = map lower_char s"

text \<open>\<^verbatim>\<open>s.capitalize()\<close>: first character upper case, the rest lower case.\<close>

definition capitalize :: "string \<Rightarrow> string" where
  "capitalize s = (case s of [] \<Rightarrow> [] | c # cs \<Rightarrow> upper_char c # lower cs)"

text \<open>\<^verbatim>\<open>s.replace(a, b)\<close> for single characters \<open>a\<close>, \<open>b\<close>.\<close>

definition replace_char :: "char \<Rightarrow> char \<Rightarrow> string \<Rightarrow> string" where
  "replace_char a b s = map (\<lambda>c. if c = a then b else c) s"

definition is_space :: "char \<Rightarrow> bool" where
  "is_space c \<longleftrightarrow>
     c \<in> set [CHR 0x20, CHR 0x09, CHR 0x0A, CHR 0x0B, CHR 0x0C, CHR 0x0D,
              CHR 0x1C, CHR 0x1D, CHR 0x1E, CHR 0x1F]"

text \<open>\<^verbatim>\<open>s.strip()\<close>\<close>

definition strip :: "string \<Rightarrow> string" where
  "strip s = rev (dropWhile is_space (rev (dropWhile is_space s)))"

text \<open>\<^verbatim>\<open>s.startswith(p)\<close>, \<^verbatim>\<open>s.endswith(p)\<close> and \<^verbatim>\<open>sub in s\<close>.\<close>

definition startswith :: "string \<Rightarrow> string \<Rightarrow> bool" where
  "startswith s p \<longleftrightarrow> take (length p) s = p"

definition endswith :: "string \<Rightarrow> string \<Rightarrow> bool" where
  "endswith s p \<longleftrightarrow> length p \<le> length s \<and> drop (length s - length p) s = p"

fun is_in :: "string \<Rightarrow> string \<Rightarrow> bool" where
  "is_in sub [] \<longleftrightarrow> sub = []"
| "is_in sub (c # cs) \<longleftrightarrow> startswith (c # cs) sub \<or> is_in sub cs"

section \<open>conversation\_store.py: data\<close>

record entity =
  ent_name :: string
  ent_type :: string
  aliases :: "string set"
  ent_metadata :: "(string \<times> string) list"
  ent_first_seen :: rat
  ent_last_seen :: rat

record relationship =
  entity1_id :: string
  entity2_id :: string
  relationship_type :: string
  strength :: rat
  rel_metadata :: "(string \<times> string) list"
  rel_first_seen :: rat
  rel_last_seen :: rat

record conversation_message =
  message_id :: string
  msg_thread_id :: string
  sender :: string
  recipients :: "string list"
  msg_subject :: string
  content :: string
  timestamp :: rat
  is_from_agent :: bool
  msg_entities :: "string list"

record conversation_thread =
  thread_id :: string
  subject :: string
  participants :: "string set"
  messages :: "conversation_message list"
  last_updated :: rat
  topics :: "string list"

record store =
  entities :: "(string \<times> entity) list"
  relationships :: "(string \<times> relationship) list"
  threads :: "(string \<times> conversation_thread) list"

datatype error = ValueError | TypeError

definition empty_store :: store where
  "empty_store = \<lparr>entities = [], relationships = [], threads = []\<rparr>"

section \<open>Entity and Relationship methods\<close>

text \<open>\<^verbatim>\<open>Entity.update_seen\<close>\<close>

definition entity_update_seen :: "rat \<Rightarrow> entity \<Rightarrow> entity" where
  "entity_update_seen now e = e\<lparr>ent_last_seen := now\<rparr>"

text \<open>\<^verbatim>\<open>Entity.add_alias\<close>: a blank alias is ignored, any other is stored stripped.\<close>

definition add_alias :: "entity \<Rightarrow> string \<Rightarrow> entity" where
  "add_alias e alias =
     (if alias \<noteq> [] \<and> strip alias \<noteq> [] then e\<lparr>aliases := insert (strip alias) (aliases e)\<rparr>
      else e)"

text \<open>\<^verbatim>\<open>Entity.matches\<close>\<close>

definition matches :: "entity \<Rightarrow> string \<Rightarrow> bool" where
  "matches e text0 =
     (let text1 = lower text0 in
      if is_in (lower (ent_name e)) text1 then True
      else (\<exists>alias \<in> aliases e. is_in (lower alias) text1))"

text \<open>\<^verbatim>\<open>Relationship.update_seen\<close> and \<^verbatim>\<open>Relationship.strengthen(amount=0.1)\<close>\<close>

definition relationship_update_seen :: "rat \<Rightarrow> relationship \<Rightarrow> relationship" where
  "relationship_update_seen now r = r\<lparr>rel_last_seen := now\<rparr>"

definition strengthen :: "rat \<Rightarrow> relationship \<Rightarrow> relationship" where
  "strengthen amount r = r\<lparr>strength := min 1 (strength r + amount)\<rparr>"

section \<open>ConversationMemoryStore: entities and relationships\<close>

text \<open>The identifier computed on the first line of \<^verbatim>\<open>add_entity\<close>:
  \<^verbatim>\<open>f"{entity_type}_{name.lower().replace(' ', '_')}"\<close>.\<close>

definition entity_id_of :: "string \<Rightarrow> string \<Rightarrow> string" where
  "entity_id_of name entity_type =
     entity_type @ ''_'' @ replace_char (CHR '' '') (CHR ''_'') (lower name)"

text \<open>\<^verbatim>\<open>add_entity(name, entity_type, aliases=None)\<close>. The argument \<open>None\<close> and the empty
  list both fail the test \<^verbatim>\<open>if aliases\<close>.\<close>

definition add_entity ::
  "store \<Rightarrow> rat \<Rightarrow> string \<Rightarrow> string \<Rightarrow> string list option \<Rightarrow> string \<times> store" where
  "add_entity s now name entity_type aliases_arg =
     (let entity_id = entity_id_of name entity_type in
      case map_of (entities s) entity_id of
        Some e \<Rightarrow>
          (let e1 = entity_update_seen now e;
               e2 = (case aliases_arg of
                       None \<Rightarrow> e1
                     | Some al \<Rightarrow> if al \<noteq> [] then foldl add_alias e1 al else e1)
           in (entity_id, s\<lparr>entities := AList.update entity_id e2 (entities s)\<rparr>))
      | None \<Rightarrow>
          (let e = \<lparr>ent_name = name, ent_type = entity_type,
                    aliases = (case aliases_arg of
                                 None \<Rightarrow> {}
                               | Some al \<Rightarrow> if al \<noteq> [] then set al else {}),
                    ent_metadata = [], ent_first_seen = now, ent_last_seen = now\<rparr>
           in (entity_id, s\<lparr>entities := AList.update entity_id e (entities s)\<rparr>)))"

text \<open>The identifier computed by \<^verbatim>\<open>add_relationship\<close>:
  \<^verbatim>\<open>f"{min(entity1_id, entity2_id)}_{max(entity1_id, entity2_id)}_{relationship_type}"\<close>;
  Python compares strings lexicographically by code point.\<close>

definition relationship_id_of :: "string \<Rightarrow> string \<Rightarrow> string \<Rightarrow> string" where
  "relationship_id_of e1 e2 rt = min e1 e2 @ ''_'' @ max e1 e2 @ ''_'' @ rt"

text \<open>\<^verbatim>\<open>add_relationship(entity1_id, entity2_id, relationship_type)\<close>. The \<^verbatim>\<open>ValueError\<close>
  is raised before anything is written.\<close>

definition add_relationship ::
  "store \<Rightarrow> rat \<Rightarrow> string \<Rightarrow> string \<Rightarrow> string \<Rightarrow> (error + string) \<times> store" where
  "add_relationship s now e1 e2 rt =
     (if map_of (entities s) e1 = None \<or> map_of (entities s) e2 = None
      then (Inl ValueError, s)
      else
        (let rel_id = relationship_id_of e1 e2 rt in
         case map_of (relationships s) rel_id of
           Some r \<Rightarrow>
             (Inr rel_id,
              s\<lparr>relationships :=
                  AList.update rel_id (strengthen (1 / 10) (relationship_update_seen now r))
                    (relationships s)\<rparr>)
         | None \<Rightarrow>
             (let r = \<lparr>entity1_id = e1, entity2_id = e2, relationship_type = rt,
                       strength = 0, rel_metadata = [],
                       rel_first_seen = now, rel_last_seen = now\<rparr>
              in (Inr rel_id, s\<lparr>relationships := AList.update rel_id r (relationships s)\<rparr>))))"

section \<open>ConversationMemoryStore: threads and messages\<close>

text \<open>\<^verbatim>\<open>add_thread(thread_id, subject)\<close>: an existing thread keeps its subject.\<close>

definition add_thread ::
  "store \<Rightarrow> rat \<Rightarrow> string \<Rightarrow> string \<Rightarrow> conversation_thread \<times> store" where
  "add_thread s now tid subj =
     (case map_of (threads s) tid of
        Some t \<Rightarrow>
          (let t' = t\<lparr>last_updated := now\<rparr>
           in (t', s\<lparr>threads := AList.update tid t' (threads s)\<rparr>))
      | None \<Rightarrow>
          (let t = \<lparr>thread_id = tid, subject = subj, participants = {}, messages = [],
                    last_updated = now, topics = []\<rparr>
           in (t, s\<lparr>threads := AList.update tid t (threads s)\<rparr>)))"

text \<open>\<^verbatim>\<open>ConversationThread.add_message(message)\<close>\<close>

definition thread_add_message ::
  "rat \<Rightarrow> conversation_message \<Rightarrow> conversation_thread \<Rightarrow> conversation_thread" where
  "thread_add_message now m t =
     t\<lparr>messages := messages t @ [m],
       participants := participants t \<union> {sender m} \<union> set (recipients m),
       last_updated := now\<rparr>"

text \<open>\<^verbatim>\<open>extract_entities_from_text(text)\<close>: the ids of the matching entities in dict order;
  each matching entity is touched.\<close>

definition extract_entities_from_text :: "store \<Rightarrow> rat \<Rightarrow> string \<Rightarrow> string list \<times> store" where
  "extract_entities_from_text s now text0 =
     (map fst (filter (\<lambda>(k, e). matches e text0) (entities s)),
      s\<lparr>entities :=
          map (\<lambda>(k, e). (k, if matches e text0 then entity_update_seen now e else e))
            (entities s)\<rparr>)"

text \<open>\<^verbatim>\<open>add_message(message_id, thread_id, sender, recipients, subject, content,
  is_from_agent)\<close>. The message's time stamp is \<^verbatim>\<open>time.time()\<close>; the function has no
  parameter for a time stamp. The closing \<^verbatim>\<open>self.save()\<close> writes the document, catches
  every exception and leaves the store in memory as it is.\<close>

definition add_message ::
  "store \<Rightarrow> rat \<Rightarrow> string \<Rightarrow> string \<Rightarrow> string \<Rightarrow> string list \<Rightarrow> string \<Rightarrow> string \<Rightarrow> bool
     \<Rightarrow> conversation_message \<times> store" where
  "add_message s now mid tid sndr rcpts subj cont agent =
     (let (thread, s1) = add_thread s now tid subj;
          message = \<lparr>message_id = mid, msg_thread_id = tid, sender = sndr,
                     recipients = rcpts, msg_subject = subj, content = cont,
                     timestamp = now, is_from_agent = agent, msg_entities = []\<rparr>;
          (entity_ids, s2) = extract_entities_from_text s1 now cont;
          message' = message\<lparr>msg_entities := entity_ids\<rparr>
      in (message',
          s2\<lparr>threads := AList.update tid (thread_add_message now message' thread) (threads s2)\<rparr>))"

text \<open>A run of \<^verbatim>\<open>add_message\<close> calls; each call comes with the clock reading made in it.\<close>

type_synonym add_message_call =
  "rat \<times> string \<times> string \<times> string \<times> string list \<times> string \<times> string \<times> bool"

fun add_messages :: "store \<Rightarrow> add_message_call list \<Rightarrow> store" where
  "add_messages s [] = s"
| "add_messages s ((now, mid, tid, sndr, rcpts, subj, cont, agent) # calls) =
     add_messages (snd (add_message s now mid tid sndr rcpts subj cont agent)) calls"

section \<open>Context summary\<close>

definition newline :: char where
  "newline = CHR 0x0A"

text \<open>The slice \<^verbatim>\<open>xs[i:]\<close>: a negative index counts from the end, and an index before
  the start is the start.\<close>

definition slice_from :: "int \<Rightarrow> 'a list \<Rightarrow> 'a list" where
  "slice_from i xs =
     (if i < 0 then drop (nat (int (length xs) + i)) xs else drop (nat i) xs)"

text \<open>\<^verbatim>\<open>ConversationThread.get_context_summary(max_messages=5)\<close>. The date line is
  \<^verbatim>\<open>time.strftime('%Y-%m-%d %H:%M:%S', time.localtime(msg.timestamp))\<close>, which depends
  on the local time zone: the formatter is the argument \<open>strftime\<close>. Python's
  \<^verbatim>\<open>sorted\<close> is stable, as \<^const>\<open>sort_key\<close> is.\<close>

definition render_message :: "(rat \<Rightarrow> string) \<Rightarrow> conversation_message \<Rightarrow> string" where
  "render_message strftime msg =
     ''From: '' @ (if is_from_agent msg then ''You (Sofia)'' else sender msg) @ [newline]
     @ ''Date: '' @ strftime (timestamp msg) @ [newline]
     @ content msg @ [newline, newline]"

definition get_context_summary ::
  "(rat \<Rightarrow> string) \<Rightarrow> conversation_thread \<Rightarrow> int \<Rightarrow> string" where
  "get_context_summary strftime t max_messages =
     (let sorted_messages = sort_key timestamp (messages t);
          recent_messages =
            (if int (length sorted_messages) > max_messages
             then slice_from (- max_messages) sorted_messages
             else sorted_messages)
      in foldl (\<lambda>context msg. context @ render_message strftime msg)
           (''Subject: '' @ subject t @ [newline, newline]) recent_messages)"

text \<open>\<^verbatim>\<open>get_thread_context(thread_id, max_messages=5)\<close>\<close>

definition get_thread_context :: "(rat \<Rightarrow> string) \<Rightarrow> store \<Rightarrow> string \<Rightarrow> int \<Rightarrow> string" where
  "get_thread_context strftime s tid max_messages =
     (case map_of (threads s) tid of
        Some t \<Rightarrow> get_context_summary strftime t max_messages
      | None \<Rightarrow> [])"

text \<open>The rendering the specification describes, for comparison: as above, with the fixed
  string \<^verbatim>\<open>You (Agent)\<close> for the agent's own messages, and the last \<open>max_messages\<close>
  messages.\<close>

definition render_message_spec :: "(rat \<Rightarrow> string) \<Rightarrow> conversation_message \<Rightarrow> string" where
  "render_message_spec strftime msg =
     ''From: '' @ (if is_from_agent msg then ''You (Agent)'' else sender msg) @ [newline]
     @ ''Date: '' @ strftime (timestamp msg) @ [newline]
     @ content msg @ [newline, newline]"

definition context_summary_spec ::
  "(rat \<Rightarrow> string) \<Rightarrow> conversation_thread \<Rightarrow> nat \<Rightarrow> string" where
  "context_summary_spec strftime t max_messages =
     (let sorted_messages = sort_key timestamp (messages t)
      in ''Subject: '' @ subject t @ [newline, newline]
         @ concat (map (render_message_spec strftime)
                     (drop (length sorted_messages - max_messages) sorted_messages)))"

text \<open>The identifier the specification describes, for comparison: the type in lower case
  as well.\<close>

definition entity_id_spec :: "string \<Rightarrow> string \<Rightarrow> string" where
  "entity_id_spec name entity_type =
     lower entity_type @ ''_'' @ replace_char (CHR '' '') (CHR ''_'') (lower name)"

section \<open>memory\_integration.py: entity extraction from an email\<close>

text \<open>
  The regular expressions of \<^verbatim>\<open>_extract_entities_from_email\<close> are fixed pattern lists,
  matched by the library call \<^verbatim>\<open>re.findall(pattern, content)\<close>. A pattern is named by
  its list and its position in it, and the library call is the argument \<open>findall\<close> of the
  model: \<open>findall p content\<close> is the list of strings \<^verbatim>\<open>re.findall\<close> returns for the
  pattern \<open>p\<close>.
\<close>

datatype pattern = OrgPattern nat | ProjectPattern nat | PersonPattern nat | DatePattern nat

definition org_patterns :: "pattern list" where
  "org_patterns = [OrgPattern 0, OrgPattern 1, OrgPattern 2]"

definition project_patterns :: "pattern list" where
  "project_patterns = [ProjectPattern 0, ProjectPattern 1, ProjectPattern 2, ProjectPattern 3]"

definition person_patterns :: "pattern list" where
  "person_patterns =
     [PersonPattern 0, PersonPattern 1, PersonPattern 2, PersonPattern 3, PersonPattern 4]"

definition date_patterns :: "pattern list" where
  "date_patterns = [DatePattern 0, DatePattern 1, DatePattern 2, DatePattern 3]"

definition common_words :: "string list" where
  "common_words =
     [''This'', ''That'', ''These'', ''Those'', ''First'', ''Last'', ''Monday'', ''Tuesday'',
      ''Wednesday'', ''Thursday'', ''Friday'', ''Saturday'', ''Sunday'', ''January'',
      ''February'', ''March'', ''April'', ''May'', ''June'', ''July'', ''August'',
      ''September'', ''October'', ''November'', ''December'']"

text \<open>\<^verbatim>\<open>re.match(r'^([^<]+)', sender)\<close>: the longest non-empty prefix without \<^verbatim>\<open><\<close>.\<close>

definition name_match :: "string \<Rightarrow> string option" where
  "name_match sender0 =
     (let g = takeWhile (\<lambda>c. c \<noteq> CHR ''<'') sender0 in if g = [] then None else Some g)"

text \<open>\<^verbatim>\<open>re.search(r'<([^>]+)>', sender)\<close>: the first \<^verbatim>\<open><\<close> that is followed by at least
  one character other than \<^verbatim>\<open>>\<close> and then by \<^verbatim>\<open>>\<close>; the group is what lies between.\<close>

fun email_match :: "string \<Rightarrow> string option" where
  "email_match [] = None"
| "email_match (c # cs) =
     (if c = CHR ''<'' then
        (let g = takeWhile (\<lambda>d. d \<noteq> CHR ''>'') cs
         in if g \<noteq> [] \<and> drop (length g) cs \<noteq> [] then Some g else email_match cs)
      else email_match cs)"

definition public_suffixes :: "string list" where
  "public_suffixes = [''.com'', ''.org'', ''.net'', ''.io'', ''.gov'', ''.edu'']"

text \<open>The sender block: the display name becomes a person, with the raw header as alias;
  a domain outside the listed suffixes becomes an organization, linked by
  \<^verbatim>\<open>works_at\<close>. The two ids are rebuilt by hand in the source.\<close>

definition sender_rule :: "store \<Rightarrow> rat \<Rightarrow> string \<Rightarrow> (error + unit) \<times> store" where
  "sender_rule s now sender0 =
     (if sender0 = [] then (Inr (), s)
      else
        case name_match sender0 of
          None \<Rightarrow> (Inr (), s)
        | Some g \<Rightarrow>
            (let name = strip g;
                 s1 = snd (add_entity s now name ''person'' (Some [sender0]))
             in case email_match sender0 of
                  None \<Rightarrow> (Inr (), s1)
                | Some email \<Rightarrow>
                    (let domain = rev (takeWhile (\<lambda>c. c \<noteq> CHR ''@'') (rev email))
                     in if domain \<noteq> [] \<and> CHR ''.'' \<in> set domain
                           \<and> \<not> list_ex (endswith domain) public_suffixes
                        then
                          (let org_name = capitalize (takeWhile (\<lambda>c. c \<noteq> CHR ''.'') domain);
                               s2 = snd (add_entity s1 now org_name ''organization'' None);
                               person_id =
                                 ''person_'' @ replace_char (CHR '' '') (CHR ''_'') (lower name);
                               org_id =
                                 ''organization_''
                                 @ replace_char (CHR '' '') (CHR ''_'') (lower org_name)
                           in case add_relationship s2 now person_id org_id ''works_at'' of
                                (Inl e, s3) \<Rightarrow> (Inl e, s3)
                              | (Inr rel_id, s3) \<Rightarrow> (Inr (), s3))
                        else (Inr (), s1))))"

text \<open>The organization, project and person loops: every match of every pattern of the
  list, stripped, is added when it passes the loop's filter.\<close>

definition add_matches ::
  "(string \<Rightarrow> bool) \<Rightarrow> string \<Rightarrow> store \<Rightarrow> rat \<Rightarrow> string list \<Rightarrow> store" where
  "add_matches keep entity_type s now ms =
     foldl (\<lambda>s' m. let n = strip m in
                    if keep n then snd (add_entity s' now n entity_type None) else s')
       s ms"

definition keep_long :: "string \<Rightarrow> bool" where
  "keep_long n \<longleftrightarrow> n \<noteq> [] \<and> length n > 3"

definition keep_person :: "string \<Rightarrow> bool" where
  "keep_person n \<longleftrightarrow> n \<noteq> [] \<and> length n > 3 \<and> n \<notin> set common_words"

text \<open>\<^verbatim>\<open>re.sub(r'^(Re|Fwd|FW|RE|FWD):\s*', '', subject)\<close>\<close>

definition clean_subject :: "string \<Rightarrow> string" where
  "clean_subject subject0 =
     (case find (\<lambda>p. startswith subject0 (p @ '':''))
             [''Re'', ''Fwd'', ''FW'', ''RE'', ''FWD''] of
        None \<Rightarrow> subject0
      | Some p \<Rightarrow> dropWhile is_space (drop (length p + 1) subject0))"

definition subject_rule :: "store \<Rightarrow> rat \<Rightarrow> string \<Rightarrow> store" where
  "subject_rule s now subject0 =
     (if subject0 = [] then s
      else (let c = strip (clean_subject subject0)
            in if c \<noteq> [] then snd (add_entity s now c ''topic'' None) else s))"

text \<open>The parameters of \<^verbatim>\<open>add_entity(self, name, entity_type, aliases=None)\<close>, and a call
  of it that also passes keyword arguments: Python binds the arguments before the body
  runs and raises \<^verbatim>\<open>TypeError\<close> for a keyword that is no parameter.\<close>

definition add_entity_params :: "string list" where
  "add_entity_params = [''name'', ''entity_type'', ''aliases'']"

definition add_entity_keywords ::
  "store \<Rightarrow> rat \<Rightarrow> string \<Rightarrow> string \<Rightarrow> string list \<Rightarrow> (error + string) \<times> store" where
  "add_entity_keywords s now name entity_type keywords =
     (if list_ex (\<lambda>k. k \<notin> set add_entity_params) keywords then (Inl TypeError, s)
      else (case add_entity s now name entity_type None of (i, s') \<Rightarrow> (Inr i, s')))"

text \<open>The date loop: \<^verbatim>\<open>self.memory.add_entity(date_str, "date", metadata={"is_deadline":
  True})\<close> for every non-blank match.\<close>

fun date_rule :: "store \<Rightarrow> rat \<Rightarrow> string list \<Rightarrow> (error + unit) \<times> store" where
  "date_rule s now [] = (Inr (), s)"
| "date_rule s now (m # ms) =
     (let date_str = strip m in
      if date_str \<noteq> [] then
        (case add_entity_keywords s now date_str ''date'' [''metadata''] of
           (Inl e, s') \<Rightarrow> (Inl e, s')
         | (Inr i, s') \<Rightarrow> date_rule s' now ms)
      else date_rule s now ms)"

definition all_matches :: "(pattern \<Rightarrow> string \<Rightarrow> string list) \<Rightarrow> pattern list \<Rightarrow> string \<Rightarrow> string list" where
  "all_matches findall ps content0 = concat (map (\<lambda>p. findall p content0) ps)"

text \<open>\<^verbatim>\<open>_extract_entities_from_email(content, sender, subject)\<close>: the six blocks in the order
  of the source, with no exception handler around any of them.\<close>

definition extract_entities_from_email ::
  "(pattern \<Rightarrow> string \<Rightarrow> string list) \<Rightarrow> store \<Rightarrow> rat \<Rightarrow> string \<Rightarrow> string \<Rightarrow> string
     \<Rightarrow> (error + unit) \<times> store" where
  "extract_entities_from_email findall s now content0 sender0 subject0 =
     (case sender_rule s now sender0 of
        (Inl e, s1) \<Rightarrow> (Inl e, s1)
      | (Inr u, s1) \<Rightarrow>
          (let s2 = add_matches keep_long ''organization'' s1 now
                      (all_matches findall org_patterns content0);
               s3 = add_matches keep_long ''project'' s2 now
                      (all_matches findall project_patterns content0);
               s4 = add_matches keep_person ''person'' s3 now
                      (all_matches findall person_patterns content0);
               s5 = subject_rule s4 now subject0
           in date_rule s5 now (all_matches findall date_patterns content0)))"

section \<open>gmail\_agent.py: the thread decision\<close>

text \<open>A message as the mailbox reports it. A header is a pair of name and value;
  \<^verbatim>\<open>internalDate\<close> is the number the source reads with \<^verbatim>\<open>int(...)\<close>.\<close>

record raw_message =
  gmail_id :: string
  threadId :: string
  headers :: "(string \<times> string) list"
  labelIds :: "string list"
  internalDate :: int
  snippet :: string

text \<open>\<^verbatim>\<open>messages.sort(key=lambda x: int(x.get('internalDate', 0)), reverse=True)\<close>: stable,
  newest first; messages of equal date keep their listing order.\<close>

definition sort_newest_first :: "raw_message list \<Rightarrow> raw_message list" where
  "sort_newest_first ms = sort_key (\<lambda>m. - internalDate m) ms"

text \<open>The header loop of \<^verbatim>\<open>get_latest_message_in_thread\<close>: some header named
  \<^verbatim>\<open>from\<close> whose value, in lower case, contains one of three fixed strings.\<close>

definition latest_is_from_agent :: "raw_message \<Rightarrow> bool" where
  "latest_is_from_agent m =
     list_ex (\<lambda>(n, v). lower n = ''from''
                \<and> (is_in ''me@'' (lower v) \<or> is_in ''your.email@'' (lower v)
                    \<or> is_in ''sofia'' (lower v)))
       (headers m)"

text \<open>The header loop of \<^verbatim>\<open>has_been_replied_to_by_agent\<close>: two fixed strings.\<close>

definition latest_is_from_me :: "raw_message \<Rightarrow> bool" where
  "latest_is_from_me m =
     list_ex (\<lambda>(n, v). lower n = ''from''
                \<and> (is_in ''me@'' (lower v) \<or> is_in ''your.email@'' (lower v)))
       (headers m)"

text \<open>\<^verbatim>\<open>get_latest_message_in_thread\<close>. The mailbox calls are arguments: \<open>thread_response\<close>
  is the message list of the thread (\<open>None\<close> when a call raises, which the handler turns
  into \<^verbatim>\<open>(None, False)\<close>), \<open>fetch_full\<close> is the final fetch of the latest message, and
  \<open>current_time\<close> is the clock in milliseconds.\<close>

definition get_latest_message_in_thread ::
  "raw_message list option \<Rightarrow> (raw_message \<Rightarrow> raw_message option) \<Rightarrow> int
     \<Rightarrow> raw_message option \<times> bool" where
  "get_latest_message_in_thread thread_response fetch_full current_time =
     (case thread_response of
        None \<Rightarrow> (None, False)
      | Some ms \<Rightarrow>
          (case sort_newest_first ms of
             [] \<Rightarrow> (None, False)
           | latest_message # older \<Rightarrow>
               if latest_is_from_agent latest_message then (Some latest_message, False)
               else
                 (let has_unread =
                        list_ex (\<lambda>msg. ''UNREAD'' \<in> set (labelIds msg)) (latest_message # older);
                      time_diff = current_time - internalDate latest_message;
                      is_recent = (time_diff < 86400000);
                      should_process = has_unread
                  in case fetch_full latest_message of
                       None \<Rightarrow> (None, False)
                     | Some full_message \<Rightarrow> (Some full_message, should_process))))"

text \<open>\<^verbatim>\<open>has_been_replied_to_by_agent\<close>\<close>

definition has_been_replied_to_by_agent :: "raw_message list option \<Rightarrow> bool" where
  "has_been_replied_to_by_agent thread_response =
     (case thread_response of
        None \<Rightarrow> False
      | Some ms \<Rightarrow>
          (let sorted_ms = sort_newest_first ms
           in if length sorted_ms \<le> 1 then False
              else latest_is_from_me (hd sorted_ms)))"

section \<open>gmail\_agent.py: the processing loop\<close>

text \<open>
  The mailbox provider is outside the repository. Its state is the list of the account's
  messages in listing order; a thread is the sublist with one \<^verbatim>\<open>threadId\<close>.
  \<^item> \<open>thread_of\<close>: \<^verbatim>\<open>messages().get(id)\<close> followed by \<^verbatim>\<open>threads().get(threadId)\<close>;
    an unknown id makes the call raise.
  \<^item> \<open>fetch_message\<close>: \<^verbatim>\<open>messages().get(id, format='full')\<close>.
  \<^item> \<open>remove_star_from_email\<close>: \<^verbatim>\<open>messages().modify(removeLabelIds=['STARRED'])\<close>; the
    source catches every exception of this call.
\<close>

definition thread_of :: "raw_message list \<Rightarrow> string \<Rightarrow> raw_message list option" where
  "thread_of mailbox mid =
     (case find (\<lambda>m. gmail_id m = mid) mailbox of
        None \<Rightarrow> None
      | Some m \<Rightarrow> Some (filter (\<lambda>x. threadId x = threadId m) mailbox))"

definition fetch_message :: "raw_message list \<Rightarrow> raw_message \<Rightarrow> raw_message option" where
  "fetch_message mailbox m = find (\<lambda>x. gmail_id x = gmail_id m) mailbox"

definition remove_star_from_email :: "string \<Rightarrow> raw_message list \<Rightarrow> raw_message list" where
  "remove_star_from_email mid mailbox =
     map (\<lambda>m. if gmail_id m = mid then m\<lparr>labelIds := removeAll ''STARRED'' (labelIds m)\<rparr>
               else m)
       mailbox"

text \<open>\<^verbatim>\<open>fetch_starred_emails\<close>: at most ten messages labelled \<^verbatim>\<open>STARRED\<close>.\<close>

definition fetch_starred_emails :: "raw_message list \<Rightarrow> string list" where
  "fetch_starred_emails mailbox =
     map gmail_id (take 10 (filter (\<lambda>m. ''STARRED'' \<in> set (labelIds m)) mailbox))"

text \<open>
  What one pass of the loop of \<^verbatim>\<open>main\<close> calls besides the decision functions:
  \<^item> \<open>extract_email_content\<close>: the cleaned text of a message;
  \<^item> \<open>generate_response\<close>: the language model's reply to that text, \<open>None\<close> when the call
    times out;
  \<^item> \<open>send_reply\<close>: the mailbox after the reply to a message id has been sent, \<open>None\<close>
    when the call raises;
  \<^item> \<open>clock_ms\<close>: the clock in milliseconds.
\<close>

record environment =
  extract_email_content :: "raw_message \<Rightarrow> string"
  generate_response :: "string \<Rightarrow> string option"
  send_reply :: "raw_message list \<Rightarrow> string \<Rightarrow> string \<Rightarrow> raw_message list option"
  clock_ms :: int

text \<open>One pass of the loop body of \<^verbatim>\<open>main\<close> for a starred message: the number of replies
  sent (0 or 1) and the mailbox afterwards.\<close>

definition main_iteration ::
  "environment \<Rightarrow> raw_message list \<Rightarrow> string \<Rightarrow> nat \<times> raw_message list" where
  "main_iteration env mailbox email_id =
     (case get_latest_message_in_thread (thread_of mailbox email_id) (fetch_message mailbox)
             (clock_ms env) of
        (None, should_process) \<Rightarrow> (0, mailbox)
      | (Some latest_message, should_process) \<Rightarrow>
          if \<not> should_process then (0, mailbox)
          else if has_been_replied_to_by_agent (thread_of mailbox (gmail_id latest_message))
          then (0, remove_star_from_email email_id mailbox)
          else
            (let email_content = extract_email_content env latest_message in
             if email_content = [] then (0, mailbox)
             else
               case generate_response env email_content of
                 None \<Rightarrow> (0, mailbox)
               | Some reply \<Rightarrow>
                   (case send_reply env mailbox (gmail_id latest_message) reply of
                      None \<Rightarrow> (0, mailbox)
                    | Some mailbox' \<Rightarrow> (1, remove_star_from_email email_id mailbox'))))"

fun main_loop :: "environment \<Rightarrow> raw_message list \<Rightarrow> string list \<Rightarrow> nat \<times> raw_message list" where
  "main_loop env mailbox [] = (0, mailbox)"
| "main_loop env mailbox (email_id # rest) =
     (let (n, mailbox1) = main_iteration env mailbox email_id;
          (k, mailbox2) = main_loop env mailbox1 rest
      in (n + k, mailbox2))"

text \<open>\<^verbatim>\<open>main\<close>, up to the cleaning of spam: the starred messages are listed once, before
  the loop.\<close>

definition main :: "environment \<Rightarrow> raw_message list \<Rightarrow> nat \<times> raw_message list" where
  "main env mailbox = main_loop env mailbox (fetch_starred_emails mailbox)"

section \<open>Invariants, runs and example data\<close>

text \<open>Every stored relationship has a strength between 0 and 1.\<close>

definition strengths_bounded :: "store \<Rightarrow> bool" where
  "strengths_bounded s \<longleftrightarrow>
     list_all (\<lambda>(k, r). 0 \<le> strength r \<and> strength r \<le> 1) (relationships s)"

text \<open>A run of \<^verbatim>\<open>add_relationship\<close> calls, each with its clock reading; a call that
  raises leaves the store as it was and the run goes on.\<close>

type_synonym add_relationship_call = "rat \<times> string \<times> string \<times> string"

fun add_relationships :: "store \<Rightarrow> add_relationship_call list \<Rightarrow> store" where
  "add_relationships s [] = s"
| "add_relationships s ((now, e1, e2, rt) # calls) =
     add_relationships (snd (add_relationship s now e1 e2 rt)) calls"

text \<open>A store with one person and one organization.\<close>

definition example_store :: store where
  "example_store =
     snd (add_entity (snd (add_entity empty_store 1 ''Bob Smith'' ''person'' None))
            2 ''Acme'' ''organization'' None)"

text \<open>The same store with the edge between the two, and a run of eleven further upserts
  of that edge, in both directions.\<close>

definition example_graph :: store where
  "example_graph =
     snd (add_relationship example_store 3 ''person_bob_smith'' ''organization_acme''
            ''works_at'')"

definition example_calls :: "add_relationship_call list" where
  "example_calls =
     [(4, ''organization_acme'', ''person_bob_smith'', ''works_at''),
      (5, ''person_bob_smith'', ''organization_acme'', ''works_at''),
      (6, ''organization_acme'', ''person_bob_smith'', ''works_at''),
      (7, ''person_bob_smith'', ''organization_acme'', ''works_at''),
      (8, ''organization_acme'', ''person_bob_smith'', ''works_at''),
      (9, ''person_bob_smith'', ''organization_acme'', ''works_at''),
      (10, ''organization_acme'', ''person_bob_smith'', ''works_at''),
      (11, ''person_bob_smith'', ''organization_acme'', ''works_at''),
      (12, ''organization_acme'', ''person_bob_smith'', ''works_at''),
      (13, ''person_bob_smith'', ''organization_acme'', ''works_at''),
      (14, ''organization_acme'', ''person_bob_smith'', ''works_at'')]"

text \<open>Thread time stamps: in every thread the messages are in non-decreasing time-stamp
  order and none is later than \<open>bound\<close>; and: sorting a thread's messages by time stamp
  gives back the insertion order.\<close>

definition timestamps_ordered :: "rat \<Rightarrow> store \<Rightarrow> bool" where
  "timestamps_ordered bound s \<longleftrightarrow>
     list_all (\<lambda>(k, t). sorted (map timestamp (messages t))
                 \<and> list_all (\<lambda>m. timestamp m \<le> bound) (messages t))
       (threads s)"

definition threads_chronological :: "store \<Rightarrow> bool" where
  "threads_chronological s \<longleftrightarrow>
     list_all (\<lambda>(k, t). sorted (map timestamp (messages t))
                 \<and> sort_key timestamp (messages t) = messages t)
       (threads s)"

text \<open>A thread whose later message carries the earlier time stamp, a formatter for its
  two dates, and a run of three \<^verbatim>\<open>add_message\<close> calls on two threads.\<close>

definition example_message_a :: conversation_message where
  "example_message_a =
     \<lparr>message_id = ''a'', msg_thread_id = ''t1'', sender = ''alice@example.org'',
      recipients = [''agent@example.org''], msg_subject = ''Report'',
      content = ''Please send the report.'', timestamp = 200, is_from_agent = False,
      msg_entities = []\<rparr>"

definition example_message_b :: conversation_message where
  "example_message_b =
     \<lparr>message_id = ''b'', msg_thread_id = ''t1'', sender = ''agent@example.org'',
      recipients = [''alice@example.org''], msg_subject = ''Report'',
      content = ''On it.'', timestamp = 100, is_from_agent = True,
      msg_entities = []\<rparr>"

definition example_thread :: conversation_thread where
  "example_thread =
     \<lparr>thread_id = ''t1'', subject = ''Report'',
      participants = {''alice@example.org'', ''agent@example.org''},
      messages = [example_message_a, example_message_b],
      last_updated = 200, topics = []\<rparr>"

definition example_strftime :: "rat \<Rightarrow> string" where
  "example_strftime t = (if t = 100 then ''1970-01-01 00:01:40'' else ''1970-01-01 00:03:20'')"

definition example_add_message_calls :: "add_message_call list" where
  "example_add_message_calls =
     [(100, ''a'', ''t1'', ''alice@example.org'', [''agent@example.org''], ''Report'',
       ''Please send the report.'', False),
      (100, ''b'', ''t2'', ''carol@example.org'', [''agent@example.org''], ''Hello'',
       ''Hello there.'', False),
      (250, ''c'', ''t1'', ''agent@example.org'', [''alice@example.org''], ''Report'',
       ''On it.'', True)]"

text \<open>Mailbox examples: an unread, starred message from a correspondent; a message of
  the account's own; the reply as the mailbox stores it once sent, with the From header
  of an account \<^verbatim>\<open>agent@example.org\<close>; an environment in which content extraction,
  generation and sending succeed; the mailbox after the first message has been answered;
  and a second starred message of the same thread.\<close>

definition example_inbound :: raw_message where
  "example_inbound =
     \<lparr>gmail_id = ''m1'', threadId = ''t1'',
      headers = [(''From'', ''Alice <alice@example.org>''), (''To'', ''agent@example.org''),
                 (''Subject'', ''Report'')],
      labelIds = [''INBOX'', ''UNREAD'', ''STARRED''], internalDate = 1000,
      snippet = ''Could you send the report?''\<rparr>"

definition example_own :: raw_message where
  "example_own =
     \<lparr>gmail_id = ''m0'', threadId = ''t0'',
      headers = [(''From'', ''Me <me@example.org>'')],
      labelIds = [''SENT''], internalDate = 500, snippet = ''Note to self.''\<rparr>"

definition example_sent :: "nat \<Rightarrow> raw_message" where
  "example_sent n =
     \<lparr>gmail_id = ''r'' @ replicate n (CHR ''1''), threadId = ''t1'',
      headers = [(''From'', ''agent@example.org''), (''To'', ''Alice <alice@example.org>''),
                 (''Subject'', ''Re: Report'')],
      labelIds = [''SENT''], internalDate = 1000 * (1 + int n), snippet = ''Of course.''\<rparr>"

definition example_environment :: environment where
  "example_environment =
     \<lparr>extract_email_content = snippet,
      generate_response = (\<lambda>email_content. Some ''Of course.''),
      send_reply = (\<lambda>mailbox mid reply. Some (mailbox @ [example_sent (length mailbox)])),
      clock_ms = 5000\<rparr>"

definition example_mailbox_replied :: "raw_message list" where
  "example_mailbox_replied =
     [example_inbound\<lparr>labelIds := [''INBOX'', ''UNREAD'']\<rparr>, example_sent 1]"

definition example_inbound_later :: raw_message where
  "example_inbound_later =
     example_inbound\<lparr>gmail_id := ''m1b'', internalDate := 1500,
                      snippet := ''It is urgent.''\<rparr>"

text \<open>The result of \<^verbatim>\<open>re.findall\<close> on the content \<^verbatim>\<open>deadline: Friday\<close>: the first date
  pattern, \<^verbatim>\<open>[Dd]eadline\s*:\s*([A-Za-z0-9\s,]+)\<close>, yields the group \<^verbatim>\<open>Friday\<close>, and no
  other pattern of the four lists matches.\<close>

definition example_findall :: "pattern \<Rightarrow> string \<Rightarrow> string list" where
  "example_findall p c =
     (if p = DatePattern 0 \<and> c = ''deadline: Friday'' then [''Friday''] else [])"


chapter \<open>Properties\<close>

section \<open>Association lists\<close>

lemma update_keys_present:
  "map_of al k \<noteq> None \<Longrightarrow> map fst (AList.update k v al) = map fst al"
  by (induction al) auto

lemma list_all_update:
  "P (k, v) \<Longrightarrow> list_all P al \<Longrightarrow> list_all P (AList.update k v al)"
  by (induction al) auto

lemma list_all_map_of:
  "list_all P al \<Longrightarrow> map_of al k = Some v \<Longrightarrow> P (k, v)"
  by (induction al) (auto split: if_splits)

section \<open>Relationships\<close>

lemma relationship_id_of_sym: "relationship_id_of a b rt = relationship_id_of b a rt"
  by (simp add: relationship_id_of_def min.commute max.commute)

lemma add_relationship_entities [simp]:
  "entities (snd (add_relationship s now e1 e2 rt)) = entities s"
  by (simp add: add_relationship_def Let_def split: option.splits)

lemma add_relationship_threads [simp]:
  "threads (snd (add_relationship s now e1 e2 rt)) = threads s"
  by (simp add: add_relationship_def Let_def split: option.splits)

lemma add_relationship_new:
  assumes "map_of (entities s) e1 \<noteq> None" "map_of (entities s) e2 \<noteq> None"
    and "map_of (relationships s) (relationship_id_of e1 e2 rt) = None"
  shows "add_relationship s now e1 e2 rt =
    (Inr (relationship_id_of e1 e2 rt),
     s\<lparr>relationships := AList.update (relationship_id_of e1 e2 rt)
         \<lparr>entity1_id = e1, entity2_id = e2, relationship_type = rt, strength = 0,
          rel_metadata = [], rel_first_seen = now, rel_last_seen = now\<rparr> (relationships s)\<rparr>)"
  using assms by (simp add: add_relationship_def Let_def)

lemma add_relationship_existing:
  assumes "map_of (entities s) e1 \<noteq> None" "map_of (entities s) e2 \<noteq> None"
    and "map_of (relationships s) (relationship_id_of e1 e2 rt) = Some r"
  shows "add_relationship s now e1 e2 rt =
    (Inr (relationship_id_of e1 e2 rt),
     s\<lparr>relationships := AList.update (relationship_id_of e1 e2 rt)
         (r\<lparr>rel_last_seen := now, strength := min 1 (strength r + 1 / 10)\<rparr>) (relationships s)\<rparr>)"
  using assms
  by (simp add: add_relationship_def Let_def strengthen_def relationship_update_seen_def)

lemma add_relationship_unknown:
  assumes "map_of (entities s) e1 = None \<or> map_of (entities s) e2 = None"
  shows "add_relationship s now e1 e2 rt = (Inl ValueError, s)"
  using assms by (auto simp add: add_relationship_def)

text \<open>What one call does to the edge table, seen through lookup.\<close>

lemma add_relationship_lookup:
  "map_of (relationships (snd (add_relationship s now e1 e2 rt))) k =
     (if map_of (entities s) e1 = None \<or> map_of (entities s) e2 = None
         \<or> k \<noteq> relationship_id_of e1 e2 rt
      then map_of (relationships s) k
      else (case map_of (relationships s) k of
              None \<Rightarrow> Some \<lparr>entity1_id = e1, entity2_id = e2, relationship_type = rt,
                         strength = 0, rel_metadata = [], rel_first_seen = now,
                         rel_last_seen = now\<rparr>
            | Some r \<Rightarrow> Some (r\<lparr>rel_last_seen := now, strength := min 1 (strength r + 1 / 10)\<rparr>)))"
  by (auto simp add: add_relationship_def Let_def update_conv' strengthen_def
      relationship_update_seen_def split: option.splits)

lemma add_relationship_bounded:
  assumes "strengths_bounded s"
  shows "strengths_bounded (snd (add_relationship s now e1 e2 rt))"
proof (cases "map_of (entities s) e1 = None \<or> map_of (entities s) e2 = None")
  case True
  then show ?thesis using assms by (simp add: add_relationship_unknown)
next
  case False
  show ?thesis
  proof (cases "map_of (relationships s) (relationship_id_of e1 e2 rt)")
    case None
    with False assms show ?thesis
      by (simp add: add_relationship_new strengths_bounded_def list_all_update)
  next
    case (Some r)
    from assms Some have "0 \<le> strength r \<and> strength r \<le> 1"
      unfolding strengths_bounded_def by (auto dest: list_all_map_of)
    with False Some assms show ?thesis
      by (simp add: add_relationship_existing strengths_bounded_def list_all_update)
  qed
qed

lemma add_relationship_monotone:
  assumes "map_of (relationships s) k = Some r"
  shows "\<exists>r'. map_of (relationships (snd (add_relationship s now e1 e2 rt))) k = Some r'
             \<and> (strength r \<le> 1 \<longrightarrow> strength r \<le> strength r')"
  using assms by (auto simp add: add_relationship_lookup)

lemma add_relationships_bounded:
  "strengths_bounded s \<Longrightarrow> strengths_bounded (add_relationships s calls)"
  by (induction s calls rule: add_relationships.induct) (simp_all add: add_relationship_bounded)

lemma add_relationships_monotone:
  "strengths_bounded s \<Longrightarrow> map_of (relationships s) k = Some r \<Longrightarrow>
   \<exists>r'. map_of (relationships (add_relationships s calls)) k = Some r' \<and> strength r \<le> strength r'"
proof (induction s calls arbitrary: r rule: add_relationships.induct)
  case (1 s)
  then show ?case by simp
next
  case (2 s now e1 e2 rt calls)
  let ?s1 = "snd (add_relationship s now e1 e2 rt)"
  from "2.prems" have "strength r \<le> 1"
    unfolding strengths_bounded_def by (auto dest: list_all_map_of)
  with add_relationship_monotone [OF "2.prems"(2), of now e1 e2 rt]
  obtain r1 where r1: "map_of (relationships ?s1) k = Some r1" "strength r \<le> strength r1"
    by blast
  have "strengths_bounded ?s1" using "2.prems"(1) by (rule add_relationship_bounded)
  from "2.IH" [OF this r1(1)] r1(2) show ?case by auto
qed

text \<open>
  \<^bold>\<open>Claim C6.\<close> Creating a relationship when either endpoint id is absent from the entity
  table fails: the call raises (\<^verbatim>\<open>ValueError\<close> in the source, the specification's
  validation error), the error is the result the caller receives, and the store is left
  exactly as it was, so no relationship record is added.
\<close>

theorem add_relationship_unknown_entity:
  assumes "map_of (entities s) e1 = None \<or> map_of (entities s) e2 = None"
  shows "fst (add_relationship s now e1 e2 rt) = Inl ValueError
    \<and> snd (add_relationship s now e1 e2 rt) = s
    \<and> relationships (snd (add_relationship s now e1 e2 rt)) = relationships s"
  using assms by (simp add: add_relationship_unknown)

lemma example_store_value:
  "example_store =
     \<lparr>entities =
        [(''person_bob_smith'',
          \<lparr>ent_name = ''Bob Smith'', ent_type = ''person'', aliases = {}, ent_metadata = [],
           ent_first_seen = 1, ent_last_seen = 1\<rparr>),
         (''organization_acme'',
          \<lparr>ent_name = ''Acme'', ent_type = ''organization'', aliases = {}, ent_metadata = [],
           ent_first_seen = 2, ent_last_seen = 2\<rparr>)],
      relationships = [], threads = []\<rparr>"
  by (simp add: example_store_def add_entity_def entity_id_of_def empty_store_def Let_def
      lower_def lower_char_def replace_char_def)

theorem add_relationship_unknown_entity_witness:
  "(map_of (entities example_store) ''person_unknown'' = None
      \<or> map_of (entities example_store) ''organization_acme'' = None)
   \<and> map_of (entities example_store) ''organization_acme'' \<noteq> None
   \<and> fst (add_relationship example_store 3 ''person_unknown'' ''organization_acme'' ''works_at'')
       = Inl ValueError
   \<and> relationships
       (snd (add_relationship example_store 3 ''person_unknown'' ''organization_acme'' ''works_at''))
       = []"
proof -
  have h: "map_of (entities example_store) ''person_unknown'' = None
      \<or> map_of (entities example_store) ''organization_acme'' = None"
    by (simp add: example_store_value)
  have e: "map_of (entities example_store) ''organization_acme'' \<noteq> None"
    by (simp add: example_store_value)
  have r: "relationships example_store = []"
    by (simp add: example_store_value)
  from add_relationship_unknown_entity [OF h, of 3 "''works_at''"] h e r
  show ?thesis by simp
qed

text \<open>
  \<^bold>\<open>Claim C4.\<close> For entity ids \<open>a\<close> and \<open>b\<close> that exist and a relationship type \<open>rt\<close>,
  the call for \<open>(a, b, rt)\<close> followed by the call for \<open>(b, a, rt)\<close> returns the same edge
  id both times, namely \<^verbatim>\<open>min(a, b) + "_" + max(a, b) + "_" + rt\<close>. The second call adds
  no key to the edge table: it sets \<^verbatim>\<open>last_seen\<close> of the one edge to its clock reading
  and raises the strength by a tenth, capped at 1, leaving the other fields (the
  recorded direction among them) as they were.
\<close>

theorem add_relationship_symmetric:
  assumes "map_of (entities s) a \<noteq> None" and "map_of (entities s) b \<noteq> None"
  shows "fst (add_relationship s now1 a b rt) = Inr (min a b @ ''_'' @ max a b @ ''_'' @ rt)
    \<and> fst (add_relationship (snd (add_relationship s now1 a b rt)) now2 b a rt)
        = fst (add_relationship s now1 a b rt)
    \<and> map fst (relationships
                 (snd (add_relationship (snd (add_relationship s now1 a b rt)) now2 b a rt)))
        = map fst (relationships (snd (add_relationship s now1 a b rt)))
    \<and> (\<exists>r. map_of (relationships (snd (add_relationship s now1 a b rt)))
                (min a b @ ''_'' @ max a b @ ''_'' @ rt) = Some r
           \<and> map_of (relationships
                       (snd (add_relationship (snd (add_relationship s now1 a b rt)) now2 b a rt)))
                (min a b @ ''_'' @ max a b @ ''_'' @ rt)
              = Some (r\<lparr>rel_last_seen := now2, strength := min 1 (strength r + 1 / 10)\<rparr>))"
proof -
  let ?rid = "relationship_id_of a b rt"
  let ?s1 = "snd (add_relationship s now1 a b rt)"
  let ?s2 = "snd (add_relationship ?s1 now2 b a rt)"
  have rid: "?rid = min a b @ ''_'' @ max a b @ ''_'' @ rt"
    by (simp add: relationship_id_of_def)
  have rid': "relationship_id_of b a rt = ?rid"
    by (rule relationship_id_of_sym)
  have ents: "map_of (entities ?s1) b \<noteq> None" "map_of (entities ?s1) a \<noteq> None"
    using assms by simp_all
  have first: "fst (add_relationship s now1 a b rt) = Inr ?rid"
    using assms by (auto simp: add_relationship_def Let_def split: option.splits)
  obtain r where r: "map_of (relationships ?s1) ?rid = Some r"
    using assms by (cases "map_of (relationships s) ?rid") (auto simp: add_relationship_lookup)
  have second: "add_relationship ?s1 now2 b a rt =
      (Inr ?rid, ?s1\<lparr>relationships := AList.update ?rid
         (r\<lparr>rel_last_seen := now2, strength := min 1 (strength r + 1 / 10)\<rparr>)
         (relationships ?s1)\<rparr>)"
    using add_relationship_existing [OF ents, of rt r now2] r unfolding rid' by simp
  have keys: "map fst (relationships ?s2) = map fst (relationships ?s1)"
    unfolding second using r by (simp add: update_keys_present)
  have look: "map_of (relationships ?s2) ?rid
      = Some (r\<lparr>rel_last_seen := now2, strength := min 1 (strength r + 1 / 10)\<rparr>)"
    unfolding second by (simp add: update_conv')
  show ?thesis
    using first second keys look r unfolding rid by simp
qed

theorem add_relationship_symmetric_witness:
  "map_of (entities example_store) ''person_bob_smith'' \<noteq> None
   \<and> map_of (entities example_store) ''organization_acme'' \<noteq> None
   \<and> fst (add_relationship example_store 3 ''person_bob_smith'' ''organization_acme'' ''works_at'')
       = Inr ''organization_acme_person_bob_smith_works_at''
   \<and> fst (add_relationship
            (snd (add_relationship example_store 3 ''person_bob_smith'' ''organization_acme''
                    ''works_at''))
            4 ''organization_acme'' ''person_bob_smith'' ''works_at'')
       = Inr ''organization_acme_person_bob_smith_works_at''
   \<and> map fst (relationships
        (snd (add_relationship
            (snd (add_relationship example_store 3 ''person_bob_smith'' ''organization_acme''
                    ''works_at''))
            4 ''organization_acme'' ''person_bob_smith'' ''works_at'')))
       = [''organization_acme_person_bob_smith_works_at'']"
proof -
  have a: "map_of (entities example_store) ''person_bob_smith'' \<noteq> None"
    by (simp add: example_store_value)
  have b: "map_of (entities example_store) ''organization_acme'' \<noteq> None"
    by (simp add: example_store_value)
  have k: "map fst (relationships
        (snd (add_relationship example_store 3 ''person_bob_smith'' ''organization_acme''
                ''works_at'')))
      = [''organization_acme_person_bob_smith_works_at'']"
    by (simp add: example_store_value add_relationship_def relationship_id_of_def Let_def)
  from add_relationship_symmetric [OF a b, of 3 "''works_at''" 4] a b k
  show ?thesis by simp
qed

text \<open>
  \<^bold>\<open>Claim C5.\<close> Strengths stay in the interval from 0 to 1 under any run of upserts; an
  edge present before the run is present after it with a strength at least as large
  (never removed, never reset); a new edge starts at 0; an upsert of an existing edge
  sets its strength to the old one plus a tenth, capped at 1. (Strengths are exact
  rationals here, the source's floats without rounding.)
\<close>

theorem strength_invariant:
  assumes "strengths_bounded s"
  shows "strengths_bounded (add_relationships s calls)
    \<and> (map_of (relationships s) k = Some r \<longrightarrow>
         (\<exists>r'. map_of (relationships (add_relationships s calls)) k = Some r'
               \<and> strength r \<le> strength r' \<and> strength r' \<le> 1))
    \<and> (map_of (entities s) e1 \<noteq> None \<and> map_of (entities s) e2 \<noteq> None \<longrightarrow>
         (\<exists>r'. map_of (relationships (snd (add_relationship s now e1 e2 rt)))
                 (relationship_id_of e1 e2 rt) = Some r'
               \<and> strength r' =
                   (case map_of (relationships s) (relationship_id_of e1 e2 rt) of
                      None \<Rightarrow> 0
                    | Some r0 \<Rightarrow> min 1 (strength r0 + 1 / 10))))"
proof (intro conjI impI)
  show b: "strengths_bounded (add_relationships s calls)"
    using assms by (rule add_relationships_bounded)
  show "\<exists>r'. map_of (relationships (add_relationships s calls)) k = Some r'
          \<and> strength r \<le> strength r' \<and> strength r' \<le> 1"
    if "map_of (relationships s) k = Some r"
  proof -
    from add_relationships_monotone [OF assms that, of calls]
    obtain r' where r': "map_of (relationships (add_relationships s calls)) k = Some r'"
      "strength r \<le> strength r'" by blast
    from b r'(1) have "strength r' \<le> 1"
      unfolding strengths_bounded_def by (auto dest: list_all_map_of)
    with r' show ?thesis by blast
  qed
  show "\<exists>r'. map_of (relationships (snd (add_relationship s now e1 e2 rt)))
                 (relationship_id_of e1 e2 rt) = Some r'
               \<and> strength r' =
                   (case map_of (relationships s) (relationship_id_of e1 e2 rt) of
                      None \<Rightarrow> 0
                    | Some r0 \<Rightarrow> min 1 (strength r0 + 1 / 10))"
    if "map_of (entities s) e1 \<noteq> None \<and> map_of (entities s) e2 \<noteq> None"
    using that by (auto simp add: add_relationship_lookup split: option.splits)
qed

lemma example_graph_value:
  "example_graph =
     example_store\<lparr>relationships :=
       [(''organization_acme_person_bob_smith_works_at'',
         \<lparr>entity1_id = ''person_bob_smith'', entity2_id = ''organization_acme'',
          relationship_type = ''works_at'', strength = 0, rel_metadata = [],
          rel_first_seen = 3, rel_last_seen = 3\<rparr>)]\<rparr>"
  by (simp add: example_graph_def example_store_value add_relationship_def
      relationship_id_of_def Let_def)

lemma example_run_value:
  "map_of (relationships (add_relationships example_graph example_calls))
     ''organization_acme_person_bob_smith_works_at''
   = Some \<lparr>entity1_id = ''person_bob_smith'', entity2_id = ''organization_acme'',
           relationship_type = ''works_at'', strength = 1, rel_metadata = [],
           rel_first_seen = 3, rel_last_seen = 14\<rparr>"
  by (simp add: example_graph_value example_store_value example_calls_def add_relationship_def
      relationship_id_of_def Let_def strengthen_def relationship_update_seen_def)

theorem strength_invariant_witness:
  "strengths_bounded example_graph
   \<and> strengths_bounded (add_relationships example_graph example_calls)
   \<and> (\<exists>r'. map_of (relationships (add_relationships example_graph example_calls))
              ''organization_acme_person_bob_smith_works_at'' = Some r'
            \<and> 0 \<le> strength r' \<and> strength r' = 1)
   \<and> (\<exists>r'. map_of (relationships
                (snd (add_relationship example_graph 4 ''organization_acme''
                        ''person_bob_smith'' ''works_at'')))
              ''organization_acme_person_bob_smith_works_at'' = Some r'
            \<and> strength r' = 1 / 10)"
proof -
  have h: "strengths_bounded example_graph"
    by (simp add: strengths_bounded_def example_graph_value)
  have l: "map_of (relationships example_graph) ''organization_acme_person_bob_smith_works_at''
      = Some \<lparr>entity1_id = ''person_bob_smith'', entity2_id = ''organization_acme'',
           relationship_type = ''works_at'', strength = 0, rel_metadata = [],
           rel_first_seen = 3, rel_last_seen = 3\<rparr>"
    by (simp add: example_graph_value)
  have e: "map_of (entities example_graph) ''organization_acme'' \<noteq> None"
    "map_of (entities example_graph) ''person_bob_smith'' \<noteq> None"
    by (simp_all add: example_graph_value example_store_value)
  have i: "relationship_id_of ''organization_acme'' ''person_bob_smith'' ''works_at''
      = ''organization_acme_person_bob_smith_works_at''"
    by (simp add: relationship_id_of_def)
  from strength_invariant [OF h, of example_calls
      "''organization_acme_person_bob_smith_works_at''" _
      "''organization_acme''" "''person_bob_smith''" 4 "''works_at''"]
    h l e example_run_value
  show ?thesis unfolding i by simp
qed

section \<open>Entities\<close>

lemma strip_Nil: "strip [] = []" by (simp add: strip_def)

lemma add_alias_cases:
  "add_alias e a = (if strip a = [] then e else e\<lparr>aliases := insert (strip a) (aliases e)\<rparr>)"
  using strip_Nil by (auto simp: add_alias_def)

lemma foldl_add_alias:
  "foldl add_alias e al = e\<lparr>aliases := aliases e \<union> strip ` {a \<in> set al. strip a \<noteq> []}\<rparr>"
proof (induction al arbitrary: e)
  case Nil
  then show ?case by simp
next
  case (Cons a al)
  have set_eq: "strip ` {x \<in> set (a # al). strip x \<noteq> []} =
      (if strip a = [] then {} else {strip a}) \<union> strip ` {x \<in> set al. strip x \<noteq> []}"
    by auto
  show ?case
    unfolding foldl_Cons Cons.IH set_eq
    by (simp add: add_alias_cases)
qed

lemma add_entity_id [simp]: "fst (add_entity s now name ty al) = entity_id_of name ty"
  by (simp add: add_entity_def Let_def split: option.splits)

lemma add_entity_relationships [simp]:
  "relationships (snd (add_entity s now name ty al)) = relationships s"
  by (simp add: add_entity_def Let_def split: option.splits)

lemma add_entity_threads [simp]:
  "threads (snd (add_entity s now name ty al)) = threads s"
  by (simp add: add_entity_def Let_def split: option.splits)

lemma add_entity_present:
  "map_of (entities (snd (add_entity s now name ty al))) (entity_id_of name ty) \<noteq> None"
  by (simp add: add_entity_def Let_def update_conv' split: option.splits)

lemma add_entity_keeps:
  "map_of (entities s) k \<noteq> None \<Longrightarrow> map_of (entities (snd (add_entity s now name ty al))) k \<noteq> None"
  by (simp add: add_entity_def Let_def update_conv' split: option.splits)

lemma add_entity_existing:
  assumes "map_of (entities s) (entity_id_of name ty) = Some e"
  shows "add_entity s now name ty al =
    (entity_id_of name ty,
     s\<lparr>entities := AList.update (entity_id_of name ty)
          (e\<lparr>ent_last_seen := now,
             aliases := aliases e
               \<union> strip ` {a \<in> set (case al of None \<Rightarrow> [] | Some l \<Rightarrow> l). strip a \<noteq> []}\<rparr>)
          (entities s)\<rparr>)"
  using assms
  by (cases al) (simp_all add: add_entity_def Let_def entity_update_seen_def foldl_add_alias)

lemma add_entity_distinct:
  "distinct (map fst (entities s)) \<Longrightarrow> distinct (map fst (entities (snd (add_entity s now name ty al))))"
  by (simp add: add_entity_def Let_def distinct_update split: option.splits)

lemma one_record:
  "distinct (map fst al) \<Longrightarrow> map_of al k \<noteq> None \<Longrightarrow> length (filter (\<lambda>p. fst p = k) al) = 1"
proof (induction al)
  case Nil
  then show ?case by simp
next
  case (Cons p al)
  show ?case
  proof (cases "fst p = k")
    case True
    with Cons.prems have "k \<notin> fst ` set al" by auto
    then have "filter (\<lambda>p. fst p = k) al = []" by (auto simp: filter_empty_conv)
    with True show ?thesis by simp
  next
    case False
    with Cons show ?thesis by auto
  qed
qed

lemma add_entity_others:
  "k \<noteq> entity_id_of name ty \<Longrightarrow>
   map_of (entities (snd (add_entity s now name ty al))) k = map_of (entities s) k"
  by (simp add: add_entity_def Let_def update_conv' split: option.splits)

text \<open>
  \<^bold>\<open>Claim C7\<close>, as the source has it. The id that \<^verbatim>\<open>add_entity\<close> returns is the type
  \<^emph>\<open>as passed\<close>, then \<^verbatim>\<open>_\<close>, then the name in lower case with every space replaced by
  an underscore. Two calls with the same name and type return the same id; the second
  call adds no key to the entity table and changes only the record of that id, setting
  its \<^verbatim>\<open>last_seen\<close> to the clock reading and adding the non-blank aliases, stripped;
  relationships and threads are untouched. In a table without duplicate keys exactly
  one record carries the id afterwards. The function has no failing branch.
\<close>

theorem add_entity_upsert:
  "fst (add_entity s now1 name ty al1)
     = ty @ ''_'' @ replace_char (CHR '' '') (CHR ''_'') (lower name)
   \<and> fst (add_entity (snd (add_entity s now1 name ty al1)) now2 name ty al2)
     = fst (add_entity s now1 name ty al1)
   \<and> map fst (entities (snd (add_entity (snd (add_entity s now1 name ty al1)) now2 name ty al2)))
     = map fst (entities (snd (add_entity s now1 name ty al1)))
   \<and> (\<exists>e. map_of (entities (snd (add_entity s now1 name ty al1)))
             (fst (add_entity s now1 name ty al1)) = Some e
          \<and> map_of (entities (snd (add_entity (snd (add_entity s now1 name ty al1)) now2 name ty al2)))
             (fst (add_entity s now1 name ty al1))
            = Some (e\<lparr>ent_last_seen := now2,
                      aliases := aliases e
                        \<union> strip ` {a \<in> set (case al2 of None \<Rightarrow> [] | Some l \<Rightarrow> l).
                                    strip a \<noteq> []}\<rparr>))
   \<and> (k \<noteq> fst (add_entity s now1 name ty al1) \<longrightarrow>
        map_of (entities (snd (add_entity (snd (add_entity s now1 name ty al1)) now2 name ty al2))) k
        = map_of (entities (snd (add_entity s now1 name ty al1))) k)
   \<and> relationships (snd (add_entity (snd (add_entity s now1 name ty al1)) now2 name ty al2))
     = relationships s
   \<and> threads (snd (add_entity (snd (add_entity s now1 name ty al1)) now2 name ty al2))
     = threads s
   \<and> (distinct (map fst (entities s)) \<longrightarrow>
        length (filter (\<lambda>p. fst p = fst (add_entity s now1 name ty al1))
                  (entities (snd (add_entity (snd (add_entity s now1 name ty al1)) now2 name ty al2))))
        = 1)"
proof -
  let ?i = "entity_id_of name ty"
  let ?s1 = "snd (add_entity s now1 name ty al1)"
  let ?s2 = "snd (add_entity ?s1 now2 name ty al2)"
  obtain e where e: "map_of (entities ?s1) ?i = Some e"
    using add_entity_present [of s now1 name ty al1] by blast
  note second = add_entity_existing [OF e, of now2 al2]
  have keys: "map fst (entities ?s2) = map fst (entities ?s1)"
    unfolding second using e by (simp add: update_keys_present)
  have look: "map_of (entities ?s2) ?i
      = Some (e\<lparr>ent_last_seen := now2,
                aliases := aliases e
                  \<union> strip ` {a \<in> set (case al2 of None \<Rightarrow> [] | Some l \<Rightarrow> l). strip a \<noteq> []}\<rparr>)"
    unfolding second by (simp add: update_conv')
  have others: "map_of (entities ?s2) k = map_of (entities ?s1) k" if "k \<noteq> ?i"
    using that by (rule add_entity_others)
  have one: "length (filter (\<lambda>p. fst p = ?i) (entities ?s2)) = 1"
    if "distinct (map fst (entities s))"
  proof -
    have "distinct (map fst (entities ?s2))"
      using that by (intro add_entity_distinct)
    moreover have "map_of (entities ?s2) ?i \<noteq> None" using look by simp
    ultimately show ?thesis by (rule one_record)
  qed
  show ?thesis
    using e keys look others one by (simp add: entity_id_of_def)
qed

theorem add_entity_upsert_witness:
  "distinct (map fst (entities empty_store))
   \<and> fst (add_entity empty_store 1 ''Bob Smith'' ''person'' None) = ''person_bob_smith''
   \<and> fst (add_entity (snd (add_entity empty_store 1 ''Bob Smith'' ''person'' None)) 2
            ''Bob Smith'' ''person'' (Some [''  Bobby '', ''   '']))
       = ''person_bob_smith''
   \<and> entities (snd (add_entity (snd (add_entity empty_store 1 ''Bob Smith'' ''person'' None)) 2
                      ''Bob Smith'' ''person'' (Some [''  Bobby '', ''   ''])))
       = [(''person_bob_smith'',
           \<lparr>ent_name = ''Bob Smith'', ent_type = ''person'', aliases = {''Bobby''},
            ent_metadata = [], ent_first_seen = 1, ent_last_seen = 2\<rparr>)]
   \<and> length (filter (\<lambda>p. fst p = ''person_bob_smith'')
        (entities (snd (add_entity (snd (add_entity empty_store 1 ''Bob Smith'' ''person'' None)) 2
                      ''Bob Smith'' ''person'' (Some [''  Bobby '', ''   ''])))))
       = 1"
proof -
  have d: "distinct (map fst (entities empty_store))"
    by (simp add: empty_store_def)
  have i: "fst (add_entity empty_store 1 ''Bob Smith'' ''person'' None) = ''person_bob_smith''"
    by (simp add: entity_id_of_def lower_def lower_char_def replace_char_def)
  have v: "entities (snd (add_entity (snd (add_entity empty_store 1 ''Bob Smith'' ''person'' None)) 2
                      ''Bob Smith'' ''person'' (Some [''  Bobby '', ''   ''])))
       = [(''person_bob_smith'',
           \<lparr>ent_name = ''Bob Smith'', ent_type = ''person'', aliases = {''Bobby''},
            ent_metadata = [], ent_first_seen = 1, ent_last_seen = 2\<rparr>)]"
    by (simp add: add_entity_def entity_id_of_def empty_store_def Let_def lower_def
        lower_char_def replace_char_def entity_update_seen_def add_alias_def strip_def
        is_space_def)
  from add_entity_upsert [of empty_store 1 "''Bob Smith''" "''person''" None 2
      "Some [''  Bobby '', ''   '']" "''x''"] d i v
  show ?thesis by simp
qed

text \<open>The claim as the specification words it, with the type in lower case, fails for a
  type written with a capital.\<close>

theorem add_entity_id_counterexample:
  "fst (add_entity empty_store 0 ''Bob'' ''Person'' None) \<noteq> entity_id_spec ''Bob'' ''Person''"
  by (simp add: entity_id_of_def entity_id_spec_def lower_def lower_char_def replace_char_def)

section \<open>Threads, messages and the context summary\<close>

lemma foldl_append_concat:
  "foldl (\<lambda>acc x. acc @ f x) init xs = init @ concat (map f xs)"
  by (induction xs arbitrary: init) simp_all

lemma recent_messages_last:
  assumes "1 \<le> m"
  shows "(if int (length xs) > m then slice_from (- m) xs else xs) = drop (length xs - nat m) xs"
  using assms by (auto simp: slice_from_def nat_diff_distrib' intro: arg_cong [where f = "\<lambda>n. drop n xs"])

lemma extract_entities_threads [simp]:
  "threads (snd (extract_entities_from_text s now text0)) = threads s"
  by (simp add: extract_entities_from_text_def)

lemma add_message_value:
  "add_message s now mid tid sndr rcpts subj cont agent =
     (let message' = \<lparr>message_id = mid, msg_thread_id = tid, sender = sndr,
                     recipients = rcpts, msg_subject = subj, content = cont,
                     timestamp = now, is_from_agent = agent,
                     msg_entities = fst (extract_entities_from_text (snd (add_thread s now tid subj)) now cont)\<rparr>
      in (message',
          (snd (extract_entities_from_text (snd (add_thread s now tid subj)) now cont))
            \<lparr>threads := AList.update tid (thread_add_message now message' (fst (add_thread s now tid subj)))
                 (threads (snd (add_thread s now tid subj)))\<rparr>))"
  by (simp add: add_message_def Let_def split_beta)

lemma add_thread_messages:
  "messages (fst (add_thread s now tid subj)) =
     (case map_of (threads s) tid of None \<Rightarrow> [] | Some t \<Rightarrow> messages t)"
  by (simp add: add_thread_def Let_def split: option.splits)

lemma add_message_timestamp:
  "timestamp (fst (add_message s now mid tid sndr rcpts subj cont agent)) = now"
  by (simp add: add_message_value Let_def)

lemma add_message_stored:
  "\<exists>t'. map_of (threads (snd (add_message s now mid tid sndr rcpts subj cont agent))) tid = Some t'
     \<and> messages t' = (case map_of (threads s) tid of None \<Rightarrow> [] | Some t \<Rightarrow> messages t)
                       @ [fst (add_message s now mid tid sndr rcpts subj cont agent)]"
  by (simp add: add_message_value Let_def update_conv' thread_add_message_def add_thread_messages)

lemma add_thread_ordered:
  "timestamps_ordered b s \<Longrightarrow> timestamps_ordered b (snd (add_thread s now tid subj))"
  unfolding timestamps_ordered_def
  by (auto simp: add_thread_def Let_def split: option.splits
      intro!: list_all_update dest: list_all_map_of)

lemma timestamps_ordered_mono:
  "timestamps_ordered b s \<Longrightarrow> b \<le> b' \<Longrightarrow> timestamps_ordered b' s"
  unfolding timestamps_ordered_def list_all_iff by force

lemma sorted_snoc_bound:
  "sorted (map f xs) \<Longrightarrow> list_all (\<lambda>x. f x \<le> (b::rat)) xs \<Longrightarrow> b \<le> f y \<Longrightarrow>
   sorted (map f (xs @ [y]))"
  by (auto simp: sorted_append list_all_iff)

lemma add_message_ordered:
  assumes "timestamps_ordered b s" and "b \<le> now"
  shows "timestamps_ordered now (snd (add_message s now mid tid sndr rcpts subj cont agent))"
proof -
  let ?s1 = "snd (add_thread s now tid subj)"
  let ?t = "fst (add_thread s now tid subj)"
  let ?m = "fst (add_message s now mid tid sndr rcpts subj cont agent)"
  have o1: "list_all (\<lambda>(k, t). sorted (map timestamp (messages t))
                 \<and> list_all (\<lambda>m. timestamp m \<le> now) (messages t)) (threads ?s1)"
    using assms add_thread_ordered timestamps_ordered_mono [of b s now]
    unfolding timestamps_ordered_def by blast
  have t: "sorted (map timestamp (messages ?t))" "list_all (\<lambda>m. timestamp m \<le> b) (messages ?t)"
    using assms(1) unfolding timestamps_ordered_def add_thread_messages
    by (auto split: option.splits dest: list_all_map_of)
  have m: "timestamp ?m = now" by (rule add_message_timestamp)
  have s: "sorted (map timestamp (messages ?t @ [?m]))"
    using t assms(2) m by (intro sorted_snoc_bound [where b = b]) simp_all
  have l: "list_all (\<lambda>m. timestamp m \<le> now) (messages ?t @ [?m])"
    using t(2) assms(2) m unfolding list_all_iff by force
  have "threads (snd (add_message s now mid tid sndr rcpts subj cont agent))
      = AList.update tid (thread_add_message now ?m ?t) (threads ?s1)"
    by (simp add: add_message_value Let_def)
  moreover have "messages (thread_add_message now ?m ?t) = messages ?t @ [?m]"
    by (simp add: thread_add_message_def)
  ultimately show ?thesis
    using o1 s l unfolding timestamps_ordered_def by (simp add: list_all_update)
qed

lemma add_messages_ordered:
  "timestamps_ordered b s \<Longrightarrow> sorted (map fst calls) \<Longrightarrow> \<forall>c \<in> set calls. b \<le> fst c \<Longrightarrow>
   \<exists>b'. timestamps_ordered b' (add_messages s calls)"
proof (induction s calls arbitrary: b rule: add_messages.induct)
  case (1 s)
  then show ?case by auto
next
  case (2 s now mid tid sndr rcpts subj cont agent calls)
  let ?s1 = "snd (add_message s now mid tid sndr rcpts subj cont agent)"
  have "timestamps_ordered now ?s1"
    using "2.prems" by (intro add_message_ordered [of b]) auto
  moreover have "sorted (map fst calls)" "\<forall>c \<in> set calls. now \<le> fst c"
    using "2.prems"(2) by auto
  ultimately show ?case
    using "2.IH" [of now] by simp
qed

lemma ordered_chronological:
  "timestamps_ordered b s \<Longrightarrow> threads_chronological s"
  unfolding timestamps_ordered_def threads_chronological_def list_all_iff
  by (auto simp: sort_key_id_if_sorted)

text \<open>
  \<^bold>\<open>Claim C8\<close>, as the source has it. For \<open>max_messages\<close> of at least 1 (the default is
  5), the context summary is the line \<^verbatim>\<open>Subject: <subject>\<close> and a blank line, followed
  by the last \<open>max_messages\<close> messages of the thread in ascending time-stamp order
  (a stable sort of the stored list, whatever the insertion order), each rendered as a
  \<^verbatim>\<open>From:\<close> line showing the sender, or the fixed string \<^verbatim>\<open>You (Sofia)\<close> when
  \<^verbatim>\<open>is_from_agent\<close> is set, a \<^verbatim>\<open>Date:\<close> line, the content and a blank line.
\<close>

theorem context_summary_rendering:
  assumes "1 \<le> max_messages"
  shows "get_context_summary strftime t max_messages =
           ''Subject: '' @ subject t @ [newline, newline]
           @ concat (map (\<lambda>msg.
                 ''From: '' @ (if is_from_agent msg then ''You (Sofia)'' else sender msg)
                 @ [newline] @ ''Date: '' @ strftime (timestamp msg) @ [newline]
                 @ content msg @ [newline, newline])
               (drop (length (messages t) - nat max_messages)
                  (sort_key timestamp (messages t))))
    \<and> sorted (map timestamp (sort_key timestamp (messages t)))
    \<and> set (sort_key timestamp (messages t)) = set (messages t)
    \<and> length (sort_key timestamp (messages t)) = length (messages t)"
proof -
  have "get_context_summary strftime t max_messages =
      ''Subject: '' @ subject t @ [newline, newline]
      @ concat (map (render_message strftime)
          (drop (length (sort_key timestamp (messages t)) - nat max_messages)
             (sort_key timestamp (messages t))))"
    unfolding get_context_summary_def Let_def recent_messages_last [OF assms]
    by (simp add: foldl_append_concat)
  then show ?thesis
    by (simp add: render_message_def [abs_def])
qed

theorem context_summary_rendering_witness:
  "(1::int) \<le> 5
   \<and> get_context_summary example_strftime example_thread 5 =
       ''Subject: Report'' @ [newline, newline]
       @ ''From: You (Sofia)'' @ [newline] @ ''Date: 1970-01-01 00:01:40'' @ [newline]
       @ ''On it.'' @ [newline, newline]
       @ ''From: alice@example.org'' @ [newline] @ ''Date: 1970-01-01 00:03:20'' @ [newline]
       @ ''Please send the report.'' @ [newline, newline]
   \<and> get_context_summary example_strftime example_thread 1 =
       ''Subject: Report'' @ [newline, newline]
       @ ''From: alice@example.org'' @ [newline] @ ''Date: 1970-01-01 00:03:20'' @ [newline]
       @ ''Please send the report.'' @ [newline, newline]"
proof -
  have s: "sort_key timestamp (messages example_thread) = [example_message_b, example_message_a]"
    by (simp add: example_thread_def example_message_a_def example_message_b_def)
  have l: "length (messages example_thread) = 2"
    by (simp add: example_thread_def)
  from context_summary_rendering [of 5 example_strftime example_thread]
    context_summary_rendering [of 1 example_strftime example_thread]
  show ?thesis
    unfolding s l
    by (simp add: example_thread_def example_message_a_def example_message_b_def
        example_strftime_def)
qed

text \<open>The rendering the specification words differs from the source's in two places:
  on a thread that holds a message of the agent (\<^verbatim>\<open>You (Agent)\<close> against
  \<^verbatim>\<open>You (Sofia)\<close>), and for \<open>max_messages = 0\<close>, where the slice
  \<^verbatim>\<open>sorted_messages[-0:]\<close> is the whole list and not its last zero messages.\<close>

theorem context_summary_counterexample:
  "get_context_summary example_strftime example_thread 5
     \<noteq> context_summary_spec example_strftime example_thread 5
   \<and> get_context_summary example_strftime (example_thread\<lparr>messages := [example_message_a]\<rparr>) 0
     \<noteq> context_summary_spec example_strftime (example_thread\<lparr>messages := [example_message_a]\<rparr>) 0"
proof -
  have s: "sort_key timestamp (messages example_thread) = [example_message_b, example_message_a]"
    by (simp add: example_thread_def example_message_a_def example_message_b_def)
  have 1: "get_context_summary example_strftime example_thread 5
     \<noteq> context_summary_spec example_strftime example_thread 5"
    unfolding get_context_summary_def context_summary_spec_def Let_def s
    by (simp add: slice_from_def render_message_def render_message_spec_def
        example_message_b_def)
  have 2: "get_context_summary example_strftime (example_thread\<lparr>messages := [example_message_a]\<rparr>) 0
     \<noteq> context_summary_spec example_strftime (example_thread\<lparr>messages := [example_message_a]\<rparr>) 0"
    unfolding get_context_summary_def context_summary_spec_def Let_def
    by (simp add: slice_from_def render_message_def)
  from 1 2 show ?thesis by simp
qed

text \<open>
  \<^bold>\<open>Claim C9.\<close> The message that \<^verbatim>\<open>add_message\<close> builds and appends to its thread carries
  the clock reading of that very call as its time stamp; nothing the caller passes can
  set it. Hence, when the clock readings of successive calls do not decrease (and no
  stored message is later than the first of them), every thread's messages are in
  non-decreasing time-stamp order, and sorting them by time stamp, as the context
  summary does, returns them in insertion order.
\<close>

theorem add_message_ingestion_time:
  assumes "timestamps_ordered b s" and "sorted (map fst calls)"
    and "\<forall>c \<in> set calls. b \<le> fst c"
  shows "timestamp (fst (add_message s now mid tid sndr rcpts subj cont agent)) = now
    \<and> (\<exists>t'. map_of (threads (snd (add_message s now mid tid sndr rcpts subj cont agent))) tid
               = Some t'
            \<and> messages t' = (case map_of (threads s) tid of None \<Rightarrow> [] | Some t \<Rightarrow> messages t)
                              @ [fst (add_message s now mid tid sndr rcpts subj cont agent)])
    \<and> threads_chronological (add_messages s calls)"
  using add_messages_ordered [OF assms] add_message_timestamp add_message_stored
    ordered_chronological by blast

lemma example_run_threads:
  "map (\<lambda>(k, t). (k, map (\<lambda>m. (message_id m, timestamp m)) (messages t)))
     (threads (add_messages empty_store example_add_message_calls))
   = [(''t1'', [(''a'', 100), (''c'', 250)]), (''t2'', [(''b'', 100)])]"
  by (simp add: example_add_message_calls_def add_message_value add_thread_def Let_def
      empty_store_def extract_entities_from_text_def thread_add_message_def)

theorem add_message_ingestion_time_witness:
  "timestamps_ordered 0 empty_store
   \<and> sorted (map fst example_add_message_calls)
   \<and> list_all (\<lambda>c. 0 \<le> fst c) example_add_message_calls
   \<and> timestamp (fst (add_message empty_store 100 ''a'' ''t1'' ''alice@example.org''
                        [''agent@example.org''] ''Report'' ''Please send the report.'' False))
       = 100
   \<and> threads_chronological (add_messages empty_store example_add_message_calls)
   \<and> map (\<lambda>(k, t). (k, map (\<lambda>m. (message_id m, timestamp m)) (messages t)))
        (threads (add_messages empty_store example_add_message_calls))
       = [(''t1'', [(''a'', 100), (''c'', 250)]), (''t2'', [(''b'', 100)])]"
proof -
  have h1: "timestamps_ordered 0 empty_store"
    by (simp add: timestamps_ordered_def empty_store_def)
  have h2: "sorted (map fst example_add_message_calls)"
    by (simp add: example_add_message_calls_def)
  have h3: "\<forall>c \<in> set example_add_message_calls. 0 \<le> fst c"
    by (simp add: example_add_message_calls_def)
  from add_message_ingestion_time [OF h1 h2 h3, of 100 "''a''" "''t1''" "''alice@example.org''"
      "[''agent@example.org'']" "''Report''" "''Please send the report.''" False]
    h1 h2 h3 example_run_threads
  show ?thesis by (simp add: list_all_iff)
qed

section \<open>The thread decision\<close>

lemma sort_newest_first_Nil [simp]: "sort_newest_first ms = [] \<longleftrightarrow> ms = []"
  unfolding sort_newest_first_def by (simp flip: length_0_conv)

lemma sort_newest_first_empty [simp]: "sort_newest_first [] = []"
  by (simp add: sort_newest_first_def)

lemma set_sort_newest_first [simp]: "set (sort_newest_first ms) = set ms"
  by (simp add: sort_newest_first_def)

lemma length_sort_newest_first [simp]: "length (sort_newest_first ms) = length ms"
  by (simp add: sort_newest_first_def)

lemma latest_is_newest:
  assumes "ms \<noteq> []"
  shows "hd (sort_newest_first ms) \<in> set ms
    \<and> (\<forall>m \<in> set ms. internalDate m \<le> internalDate (hd (sort_newest_first ms)))"
proof -
  obtain x xs where x: "sort_newest_first ms = x # xs"
    using assms by (cases "sort_newest_first ms") simp_all
  have "sorted (map (\<lambda>m. - internalDate m) (sort_newest_first ms))"
    by (simp add: sort_newest_first_def)
  then have "\<forall>m \<in> set xs. internalDate m \<le> internalDate x"
    unfolding x by auto
  moreover have "set ms = insert x (set xs)"
    using set_sort_newest_first [of ms] unfolding x by simp
  ultimately show ?thesis unfolding x by auto
qed

lemma get_latest_cases:
  "get_latest_message_in_thread (Some ms) fetch_full current_time =
     (if ms = [] then (None, False)
      else if latest_is_from_agent (hd (sort_newest_first ms))
        then (Some (hd (sort_newest_first ms)), False)
      else (case fetch_full (hd (sort_newest_first ms)) of
              None \<Rightarrow> (None, False)
            | Some full_message \<Rightarrow>
                (Some full_message, \<exists>m \<in> set ms. ''UNREAD'' \<in> set (labelIds m))))"
proof (cases "sort_newest_first ms")
  case Nil
  then have "ms = []" by simp
  then show ?thesis by (simp add: get_latest_message_in_thread_def)
next
  case (Cons x xs)
  then have "ms \<noteq> []" by auto
  moreover have "set ms = insert x (set xs)"
    using set_sort_newest_first [of ms] unfolding Cons by simp
  ultimately show ?thesis
    using Cons
    by (auto simp add: get_latest_message_in_thread_def Let_def list_ex_iff split: option.splits)
qed







text \<open>
  \<^bold>\<open>Claim C10.\<close> For a thread of at most one message the already-replied check answers
  \<^verbatim>\<open>False\<close>, also when that message's From header matches the agent's identity.
\<close>

theorem single_message_never_replied:
  assumes "length ms \<le> 1"
  shows "\<not> has_been_replied_to_by_agent (Some ms)"
  using assms by (simp add: has_been_replied_to_by_agent_def Let_def)

theorem single_message_never_replied_witness:
  "length [example_own] \<le> 1 \<and> latest_is_from_me example_own
   \<and> \<not> has_been_replied_to_by_agent (Some [example_own])
   \<and> \<not> has_been_replied_to_by_agent (Some [])"
proof -
  have m: "latest_is_from_me example_own"
    by (simp add: latest_is_from_me_def example_own_def lower_def lower_char_def startswith_def)
  from single_message_never_replied [of "[example_own]"]
    single_message_never_replied [of "[]"] m
  show ?thesis by simp
qed

lemma newest_is_latest:
  assumes "\<forall>m \<in> set ms. internalDate m < internalDate sent"
  shows "hd (sort_newest_first (ms @ [sent])) = sent"
proof -
  let ?h = "hd (sort_newest_first (ms @ [sent]))"
  have "ms @ [sent] \<noteq> []" by simp
  from latest_is_newest [OF this]
  have h: "?h \<in> set ms \<or> ?h = sent" and d: "internalDate sent \<le> internalDate ?h"
    by auto
  from h d assms show ?thesis by force
qed

text \<open>A reply that the mailbox stores as the newest message of the thread, with a From
  header that matches the identity strings, makes the next decision a skip.\<close>

lemma recognized_reply_is_skipped:
  assumes "\<forall>m \<in> set ms. internalDate m < internalDate sent"
    and "latest_is_from_agent sent"
  shows "get_latest_message_in_thread (Some (ms @ [sent])) fetch_full current_time
           = (Some sent, False)"
  using assms(2) newest_is_latest [OF assms(1)] by (simp add: get_latest_cases)

lemma from_me_is_from_agent: "latest_is_from_me m \<Longrightarrow> latest_is_from_agent m"
  by (auto simp: latest_is_from_me_def latest_is_from_agent_def list_ex_iff)

text \<open>Within one pass of the loop the already-replied check never fires: it looks at
  the same latest message, for fewer identity strings.\<close>

lemma replied_check_after_decision:
  assumes "snd (get_latest_message_in_thread (Some ms) fetch_full current_time)"
  shows "\<not> has_been_replied_to_by_agent (Some ms)"
proof -
  from assms have "ms \<noteq> []" "\<not> latest_is_from_agent (hd (sort_newest_first ms))"
    by (auto simp: get_latest_cases split: if_splits option.splits)
  then show ?thesis
    using from_me_is_from_agent by (auto simp: has_been_replied_to_by_agent_def Let_def)
qed

section \<open>The processing loop on one thread\<close>

lemma example_first_pass:
  "main_iteration example_environment [example_inbound] ''m1'' = (1, example_mailbox_replied)"
  by (simp add: main_iteration_def get_latest_message_in_thread_def
      has_been_replied_to_by_agent_def thread_of_def fetch_message_def sort_newest_first_def
      latest_is_from_agent_def latest_is_from_me_def remove_star_from_email_def
      example_environment_def example_inbound_def example_sent_def example_mailbox_replied_def
      lower_def lower_char_def startswith_def Let_def)

lemma example_second_decision:
  "get_latest_message_in_thread (thread_of example_mailbox_replied ''m1'')
     (fetch_message example_mailbox_replied) 5000 = (Some (example_sent 1), True)"
  by (simp add: get_latest_message_in_thread_def thread_of_def fetch_message_def
      sort_newest_first_def latest_is_from_agent_def
      example_inbound_def example_sent_def example_mailbox_replied_def
      lower_def lower_char_def startswith_def Let_def)

lemma example_second_replied:
  "\<not> has_been_replied_to_by_agent (thread_of example_mailbox_replied ''r1'')"
  by (simp add: has_been_replied_to_by_agent_def thread_of_def
      sort_newest_first_def latest_is_from_me_def
      example_inbound_def example_sent_def example_mailbox_replied_def
      lower_def lower_char_def startswith_def Let_def)

lemma example_second_pass:
  "main_iteration example_environment example_mailbox_replied ''m1''
     = (1, example_mailbox_replied @ [example_sent 2])"
  by (simp add: eval_nat_numeral main_iteration_def get_latest_message_in_thread_def
      has_been_replied_to_by_agent_def thread_of_def fetch_message_def sort_newest_first_def
      latest_is_from_agent_def latest_is_from_me_def remove_star_from_email_def
      example_environment_def example_inbound_def example_sent_def example_mailbox_replied_def
      lower_def lower_char_def startswith_def Let_def)

lemma example_main_run:
  "fst (main example_environment [example_inbound, example_inbound_later]) = 2"
  by (simp add: eval_nat_numeral main_def fetch_starred_emails_def main_iteration_def
      get_latest_message_in_thread_def
      has_been_replied_to_by_agent_def thread_of_def fetch_message_def sort_newest_first_def
      latest_is_from_agent_def latest_is_from_me_def remove_star_from_email_def
      example_environment_def example_inbound_def example_inbound_later_def example_sent_def
      lower_def lower_char_def startswith_def Let_def)


text \<open>
  \<^bold>\<open>Claim C1\<close> asks that, once a thread has been answered and marked processed, a second
  evaluation before any new inbound message is a skip. At the mailbox of an account
  whose From header contains none of the strings \<^verbatim>\<open>me@\<close>, \<^verbatim>\<open>your.email@\<close> and
  \<^verbatim>\<open>sofia\<close> the source does otherwise. The first pass answers the thread and
  removes the star; the \<^verbatim>\<open>UNREAD\<close> label is never cleared and the agent's own reply is
  not recognized, so the second evaluation of the same thread again says
  \<^verbatim>\<open>should_process = True\<close>, the already-replied check says \<^verbatim>\<open>False\<close>, and a second
  pass sends a second reply. With two starred messages in one thread, a single run of
  \<^verbatim>\<open>main\<close> sends two replies.
\<close>

theorem duplicate_reply_after_processing:
  "main_iteration example_environment [example_inbound] ''m1'' = (1, example_mailbox_replied)
   \<and> get_latest_message_in_thread (thread_of example_mailbox_replied ''m1'')
        (fetch_message example_mailbox_replied) 5000 = (Some (example_sent 1), True)
   \<and> \<not> has_been_replied_to_by_agent (thread_of example_mailbox_replied ''r1'')
   \<and> main_iteration example_environment example_mailbox_replied ''m1''
        = (1, example_mailbox_replied @ [example_sent 2])
   \<and> fst (main example_environment [example_inbound, example_inbound_later]) = 2"
  using example_first_pass example_second_decision example_second_replied
    example_second_pass example_main_run
  by simp

section \<open>Entity extraction from an email\<close>

lemma add_relationship_ok:
  "map_of (entities s) e1 \<noteq> None \<Longrightarrow> map_of (entities s) e2 \<noteq> None \<Longrightarrow>
   fst (add_relationship s now e1 e2 rt) = Inr (relationship_id_of e1 e2 rt)"
  by (auto simp: add_relationship_def Let_def split: option.splits)

lemma sender_rule_ok: "fst (sender_rule s now sender0) = Inr ()"
proof -
  have link: "add_relationship
        (snd (add_entity (snd (add_entity s now n ''person'' al)) now org ''organization'' None))
        now (''person_'' @ replace_char (CHR '' '') (CHR ''_'') (lower n))
        (''organization_'' @ replace_char (CHR '' '') (CHR ''_'') (lower org)) ''works_at''
      \<noteq> (Inl e, s')" for n al org e s'
  proof -
    let ?s1 = "snd (add_entity s now n ''person'' al)"
    let ?s2 = "snd (add_entity ?s1 now org ''organization'' None)"
    have p: "map_of (entities ?s2) (entity_id_of n ''person'') \<noteq> None"
      by (intro add_entity_keeps add_entity_present)
    have q: "map_of (entities ?s2) (entity_id_of org ''organization'') \<noteq> None"
      by (rule add_entity_present)
    have i: "''person_'' @ replace_char (CHR '' '') (CHR ''_'') (lower n) = entity_id_of n ''person''"
      "''organization_'' @ replace_char (CHR '' '') (CHR ''_'') (lower org)
        = entity_id_of org ''organization''"
      by (simp_all add: entity_id_of_def)
    show ?thesis
      unfolding i using add_relationship_ok [OF p q, of now "''works_at''"] by auto
  qed
  show ?thesis
    unfolding sender_rule_def Let_def
    by (simp add: link [unfolded append.simps] split: option.splits prod.splits sum.splits)
qed

lemma add_entity_keywords_metadata:
  "add_entity_keywords s now name ty [''metadata''] = (Inl TypeError, s)"
  by (simp add: add_entity_keywords_def add_entity_params_def)

lemma date_rule_raises:
  "\<exists>m \<in> set ms. strip m \<noteq> [] \<Longrightarrow> date_rule s now ms = (Inl TypeError, s)"
  by (induction ms) (auto simp: add_entity_keywords_metadata Let_def)

lemma date_rule_blank:
  "\<forall>m \<in> set ms. strip m = [] \<Longrightarrow> date_rule s now ms = (Inr (), s)"
  by (induction ms) (auto simp: Let_def)

text \<open>Without a non-blank date match the extraction returns normally: the date loop is
  the only place of the function that raises.\<close>

lemma extract_entities_without_dates:
  assumes "\<forall>m \<in> set (all_matches findall date_patterns content0). strip m = []"
  shows "fst (extract_entities_from_email findall s now content0 sender0 subject0) = Inr ()"
proof -
  obtain s1 where s1: "sender_rule s now sender0 = (Inr (), s1)"
    using sender_rule_ok [of s now sender0] by (cases "sender_rule s now sender0") auto
  show ?thesis
    unfolding extract_entities_from_email_def s1 Let_def
    by (simp add: date_rule_blank [OF assms])
qed

text \<open>
  \<^bold>\<open>Claim C3\<close> asks that extraction never raises and that a failing rule contributes
  nothing while the other rules run. In the source the date rule calls
  \<^verbatim>\<open>add_entity\<close> with a keyword \<^verbatim>\<open>metadata\<close> that the function does not have, so
  whenever a date pattern yields a non-blank match, \<^verbatim>\<open>_extract_entities_from_email\<close>
  raises \<^verbatim>\<open>TypeError\<close>; nothing inside the function catches it.
\<close>

theorem date_match_raises:
  assumes "\<exists>m \<in> set (all_matches findall date_patterns content0). strip m \<noteq> []"
  shows "fst (extract_entities_from_email findall s now content0 sender0 subject0)
           = Inl TypeError"
proof -
  obtain s1 where s1: "sender_rule s now sender0 = (Inr (), s1)"
    using sender_rule_ok [of s now sender0] by (cases "sender_rule s now sender0") auto
  show ?thesis
    unfolding extract_entities_from_email_def s1 Let_def
    by (simp add: date_rule_raises [OF assms])
qed

theorem date_match_raises_witness:
  "(\<exists>m \<in> set (all_matches example_findall date_patterns ''deadline: Friday''). strip m \<noteq> [])
   \<and> fst (extract_entities_from_email example_findall empty_store 1 ''deadline: Friday''
            ''Alice <alice@example.org>'' ''Re: Report'') = Inl TypeError"
proof -
  have h: "\<exists>m \<in> set (all_matches example_findall date_patterns ''deadline: Friday'').
      strip m \<noteq> []"
    by (simp add: all_matches_def example_findall_def date_patterns_def strip_def is_space_def)
  from date_match_raises [OF h, of empty_store 1 "''Alice <alice@example.org>''" "''Re: Report''"] h
  show ?thesis by simp
qed

lemma example_extraction_store:
  "map fst (entities (snd (extract_entities_from_email example_findall empty_store 1
      ''deadline: Friday'' ''Alice <alice@example.org>'' ''Re: Report'')))
   = [''person_alice'', ''topic_report'']"
  by (simp add: extract_entities_from_email_def sender_rule_def name_match_def
      add_entity_def entity_id_of_def empty_store_def all_matches_def example_findall_def
      org_patterns_def project_patterns_def person_patterns_def date_patterns_def
      add_matches_def subject_rule_def clean_subject_def startswith_def strip_def is_space_def
      public_suffixes_def endswith_def lower_def lower_char_def replace_char_def Let_def
      add_entity_keywords_def add_entity_params_def)


end
